theory Spec2Isabelle
  imports Main "HOL-Library.Word"
begin

section \<open>Values and objects of the host language\<close>

text \<open>
  The program is the JavaScript class \<open>Keychain\<close> (keychain.js), its helpers in lib.js and
  the Express server that calls it. Byte buffers (\<open>Uint8Array\<close>, \<open>Buffer\<close>,
  \<open>ArrayBuffer\<close>) are lists of 8-bit words, JavaScript strings are \<open>string\<close>.
\<close>

type_synonym byte = "8 word"
type_synonym bytes = "byte list"

text \<open>
  The values a property read can yield here: \<open>undefined\<close>, \<open>null\<close>, a string, or a member
  inherited from \<open>Object.prototype\<close> (a built-in function, or for \<open>__proto__\<close> the prototype
  object itself), named by its property name.
\<close>

datatype jsval = JUndefined | JNull | JStr string | JNative string

text \<open>
  A plain object (\<open>{}\<close>, or what \<open>JSON.parse\<close> builds) is the list of its own enumerable
  properties; its prototype is \<open>Object.prototype\<close>. The vault and the parsed representation
  hold strings, as section 3 of the specification types them; keys are unique.
\<close>

type_synonym obj = "(string \<times> string) list"

definition Object_prototype_names :: "string list" where
  "Object_prototype_names =
     [''constructor'', ''__defineGetter__'', ''__defineSetter__'', ''hasOwnProperty'',
      ''__lookupGetter__'', ''__lookupSetter__'', ''isPrototypeOf'', ''propertyIsEnumerable'',
      ''toString'', ''valueOf'', ''__proto__'', ''toLocaleString'']"

text \<open>\<open>ToBoolean\<close>: what \<open>if (v)\<close> and \<open>v || w\<close> test.\<close>

fun truthy :: "jsval \<Rightarrow> bool" where
  "truthy JUndefined = False"
| "truthy JNull = False"
| "truthy (JStr s) = (s \<noteq> [])"
| "truthy (JNative n) = True"

text \<open>\<open>a || b\<close>\<close>

definition js_or :: "jsval \<Rightarrow> jsval \<Rightarrow> jsval" where
  "js_or a b = (if truthy a then a else b)"

text \<open>\<open>o[name]\<close>: an own property first, then the prototype chain.\<close>

definition get_property :: "obj \<Rightarrow> string \<Rightarrow> jsval" where
  "get_property ob name =
     (case map_of ob name of
        Some v \<Rightarrow> JStr v
      | None \<Rightarrow> if name \<in> set Object_prototype_names then JNative name else JUndefined)"

text \<open>\<open>name in o\<close>: own or inherited.\<close>

definition has_property :: "string \<Rightarrow> obj \<Rightarrow> bool" where
  "has_property name ob = (map_of ob name \<noteq> None \<or> name \<in> set Object_prototype_names)"

text \<open>
  \<open>o[name] = value\<close> for a string \<open>value\<close>: an own property is overwritten in place; the
  inherited accessor \<open>__proto__\<close> takes the assignment and ignores a value that is neither an
  object nor \<open>null\<close>; every other name becomes a new own property, added last.
\<close>

definition put_property :: "obj \<Rightarrow> string \<Rightarrow> string \<Rightarrow> obj" where
  "put_property ob name v =
     (if map_of ob name \<noteq> None then map (\<lambda>(k, w). if k = name then (k, v) else (k, w)) ob
      else if name = ''__proto__'' then ob
      else ob @ [(name, v)])"

text \<open>\<open>delete o[name]\<close>: removes an own property, does nothing for any other name.\<close>

definition delete_property :: "obj \<Rightarrow> string \<Rightarrow> obj" where
  "delete_property ob name = filter (\<lambda>(k, w). k \<noteq> name) ob"

section \<open>The platform\<close>

text \<open>
  The code calls into the runtime for every primitive: \<open>TextEncoder\<close>, \<open>TextDecoder\<close>,
  \<open>Buffer\<close>'s base64 codec, \<open>JSON\<close>, and WebCrypto's \<open>digest\<close>, \<open>deriveKey\<close>, \<open>encrypt\<close> and
  \<open>decrypt\<close>. None of them is code of the repository, so they are parameters of the model:

  \<^item> \<open>JSON_parse\<close> returns \<open>None\<close> where \<open>JSON.parse\<close> throws a SyntaxError. The texts covered
    are those denoting an object with string members.
  \<^item> \<open>aes_gcm_decrypt key iv ciphertext\<close> returns \<open>None\<close> where \<open>subtle.decrypt\<close> rejects
    (the tag does not verify).
  \<^item> \<open>pbkdf2_rounds\<close> is PBKDF2 with HMAC-SHA-256 (RFC 8018, 5.2) as a function of HMAC's
    key block, the salt and the iteration count, giving the 256-bit AES key.

  Every other call returns: the code handles no failure of theirs, and the specification
  (4.1, 4.2) expects none.
\<close>

record platform =
  TextEncoder_encode :: "string \<Rightarrow> bytes"
  TextDecoder_decode :: "bytes \<Rightarrow> string"
  base64_encode :: "bytes \<Rightarrow> string"
  base64_decode :: "string \<Rightarrow> bytes"
  JSON_stringify :: "obj \<Rightarrow> string"
  JSON_parse :: "string \<Rightarrow> obj option"
  sha256 :: "bytes \<Rightarrow> bytes"
  pbkdf2_rounds :: "bytes \<Rightarrow> bytes \<Rightarrow> nat \<Rightarrow> bytes"
  aes_gcm_encrypt :: "bytes \<Rightarrow> bytes \<Rightarrow> bytes \<Rightarrow> bytes"
  aes_gcm_decrypt :: "bytes \<Rightarrow> bytes \<Rightarrow> bytes \<Rightarrow> bytes option"

text \<open>
  HMAC (RFC 2104, section 2; FIPS 198-1, step 1 to 3) starts by bringing its key to the
  block size of the hash, 64 bytes for SHA-256: a longer key is hashed, and the result is
  filled up with zero bytes. PBKDF2 uses the password as this key and in no other way.
\<close>

definition hmac_key :: "(bytes \<Rightarrow> bytes) \<Rightarrow> bytes \<Rightarrow> bytes" where
  "hmac_key H K =
     (let K' = (if 64 < length K then H K else K) in K' @ replicate (64 - length K') 0)"

text \<open>
  Randomness is an input: the bytes the generator will produce, in order.
  \<open>webcrypto.getRandomValues\<close> takes the next \<open>n\<close> of them.
\<close>

type_synonym rng = "nat \<Rightarrow> byte"

section \<open>lib.js\<close>

definition stringToBuffer :: "platform \<Rightarrow> string \<Rightarrow> bytes" where
  "stringToBuffer pf str = TextEncoder_encode pf str"

definition bufferToString :: "platform \<Rightarrow> bytes \<Rightarrow> string" where
  "bufferToString pf buf = TextDecoder_decode pf buf"

definition encodeBuffer :: "platform \<Rightarrow> bytes \<Rightarrow> string" where
  "encodeBuffer pf buf = base64_encode pf buf"

datatype error =
    IntegrityError   \<comment> \<open>\<open>Error("Integrity check failed: Checksum does not match!")\<close>\<close>
  | DecryptionError  \<comment> \<open>\<open>Error("Failed to decrypt: Invalid password or corrupted data.")\<close>\<close>
  | SyntaxError      \<comment> \<open>thrown by \<open>JSON.parse\<close>\<close>
  | TypeError        \<comment> \<open>thrown by \<open>Buffer.from\<close> on a value that is not a string\<close>
  | OperationError   \<comment> \<open>what \<open>subtle.decrypt\<close> rejects with\<close>
  | InvalidInput     \<comment> \<open>named by the specification; no statement of the code raises it\<close>

text \<open>\<open>Buffer.from(str, 'base64')\<close> throws a TypeError unless \<open>str\<close> is a string.\<close>

definition decodeBuffer :: "platform \<Rightarrow> jsval \<Rightarrow> error + bytes" where
  "decodeBuffer pf v = (case v of JStr s \<Rightarrow> Inr (base64_decode pf s) | _ \<Rightarrow> Inl TypeError)"

definition getRandomBytes :: "nat \<Rightarrow> rng \<Rightarrow> bytes \<times> rng" where
  "getRandomBytes n g = (map g [0..<n], \<lambda>i. g (i + n))"

section \<open>keychain.js\<close>

definition PBKDF2_ITERATIONS :: nat where
  "PBKDF2_ITERATIONS = 100000"

text \<open>Declared by the code and used nowhere in it.\<close>

definition MAX_PASSWORD_LENGTH :: nat where
  "MAX_PASSWORD_LENGTH = 64"

text \<open>
  \<open>this.data.salt\<close> is the salt in base64, \<open>this.secrets.encKey\<close> the AES key,
  \<open>this.secrets.vault\<close> the object of name and secret pairs.
\<close>

record keychain =
  data_salt :: string
  encKey :: bytes
  vault :: obj

definition constructor :: "platform \<Rightarrow> bytes \<Rightarrow> bytes \<Rightarrow> keychain" where
  "constructor pf salt key = \<lparr>data_salt = encodeBuffer pf salt, encKey = key, vault = []\<rparr>"

text \<open>
  \<open>#deriveKey\<close>: \<open>importKey\<close> takes the encoded password as the raw key and \<open>deriveKey\<close>
  runs PBKDF2 on it, where it is the key of HMAC.
\<close>

definition deriveKey :: "platform \<Rightarrow> string \<Rightarrow> bytes \<Rightarrow> bytes" where
  "deriveKey pf password salt =
     (let passwordKey = stringToBuffer pf password
      in pbkdf2_rounds pf (hmac_key (sha256 pf) passwordKey) salt PBKDF2_ITERATIONS)"

definition init :: "platform \<Rightarrow> string \<Rightarrow> rng \<Rightarrow> keychain \<times> rng" where
  "init pf password g =
     (let (salt, g') = getRandomBytes 16 g;
          key = deriveKey pf password salt
      in (constructor pf salt key, g'))"

text \<open>Lines 75 to 81 of \<open>load\<close>: the check runs only for a truthy \<open>trustedDataCheck\<close>.\<close>

definition check_integrity :: "platform \<Rightarrow> string \<Rightarrow> jsval \<Rightarrow> error + unit" where
  "check_integrity pf repr trustedDataCheck =
     (if truthy trustedDataCheck then
        (let checksumBuffer = sha256 pf (stringToBuffer pf repr);
             computedChecksum = encodeBuffer pf checksumBuffer
         in if JStr computedChecksum \<noteq> trustedDataCheck then Inl IntegrityError else Inr ())
      else Inr ())"

text \<open>Lines 83 to 86: the representation is parsed and its three fields are decoded.\<close>

definition parse_repr :: "platform \<Rightarrow> string \<Rightarrow> error + (bytes \<times> bytes \<times> bytes)" where
  "parse_repr pf repr =
     (case JSON_parse pf repr of
        None \<Rightarrow> Inl SyntaxError
      | Some reprObj \<Rightarrow>
          (case decodeBuffer pf (get_property reprObj ''salt'') of
             Inl e \<Rightarrow> Inl e
           | Inr salt \<Rightarrow>
               (case decodeBuffer pf (get_property reprObj ''iv'') of
                  Inl e \<Rightarrow> Inl e
                | Inr iv \<Rightarrow>
                    (case decodeBuffer pf (get_property reprObj ''ciphertext'') of
                       Inl e \<Rightarrow> Inl e
                     | Inr ciphertext \<Rightarrow> Inr (salt, iv, ciphertext)))))"

text \<open>
  Lines 88 to 109: the \<open>try\<close> encloses \<open>subtle.decrypt\<close> alone and replaces whatever it
  throws; the \<open>JSON.parse\<close> of the plaintext stands after it, outside.
\<close>

definition open_vault :: "platform \<Rightarrow> string \<Rightarrow> bytes \<Rightarrow> bytes \<Rightarrow> bytes \<Rightarrow> error + keychain" where
  "open_vault pf password salt iv ciphertext =
     (let key = deriveKey pf password salt in
      case aes_gcm_decrypt pf key iv ciphertext of
        None \<Rightarrow> Inl DecryptionError
      | Some decryptedBuffer \<Rightarrow>
          (let vaultString = bufferToString pf decryptedBuffer in
           case JSON_parse pf vaultString of
             None \<Rightarrow> Inl SyntaxError
           | Some v \<Rightarrow> Inr ((constructor pf salt key)\<lparr>vault := v\<rparr>)))"

definition load :: "platform \<Rightarrow> string \<Rightarrow> string \<Rightarrow> jsval \<Rightarrow> error + keychain" where
  "load pf password repr trustedDataCheck =
     (case check_integrity pf repr trustedDataCheck of
        Inl e \<Rightarrow> Inl e
      | Inr _ \<Rightarrow>
          (case parse_repr pf repr of
             Inl e \<Rightarrow> Inl e
           | Inr (salt, iv, ciphertext) \<Rightarrow> open_vault pf password salt iv ciphertext))"

text \<open>\<open>dump\<close> returns the pair \<open>[reprString, checksum]\<close>; the generator moves on by 12 bytes.\<close>

definition dump_repr :: "platform \<Rightarrow> keychain \<Rightarrow> bytes \<Rightarrow> obj" where
  "dump_repr pf kc iv =
     (let vaultString = JSON_stringify pf (vault kc);
          ciphertext = aes_gcm_encrypt pf (encKey kc) iv (stringToBuffer pf vaultString)
      in [(''salt'', data_salt kc),
          (''iv'', encodeBuffer pf iv),
          (''ciphertext'', encodeBuffer pf ciphertext)])"

definition dump :: "platform \<Rightarrow> keychain \<Rightarrow> rng \<Rightarrow> (string \<times> string) \<times> rng" where
  "dump pf kc g =
     (let (iv, g') = getRandomBytes 12 g;
          reprString = JSON_stringify pf (dump_repr pf kc iv);
          checksumBuffer = sha256 pf (stringToBuffer pf reprString);
          checksum = encodeBuffer pf checksumBuffer
      in ((reprString, checksum), g'))"

text \<open>\<open>get\<close>: \<open>this.secrets.vault[name] || null\<close>.\<close>

definition get :: "keychain \<Rightarrow> string \<Rightarrow> jsval" where
  "get kc name = js_or (get_property (vault kc) name) JNull"

text \<open>\<open>set\<close>: \<open>this.secrets.vault[name] = value\<close>.\<close>

definition set_value :: "keychain \<Rightarrow> string \<Rightarrow> string \<Rightarrow> keychain" where
  "set_value kc name v = kc\<lparr>vault := put_property (vault kc) name v\<rparr>"

text \<open>\<open>remove\<close>: the result, and the keychain after the call.\<close>

definition remove :: "keychain \<Rightarrow> string \<Rightarrow> bool \<times> keychain" where
  "remove kc name =
     (if has_property name (vault kc)
      then (True, kc\<lparr>vault := delete_property (vault kc) name\<rparr>)
      else (False, kc))"

text \<open>
  A series of calls on one keychain, in order. \<open>get\<close> and \<open>dump\<close> leave the keychain as it
  is; \<open>dump\<close> uses up randomness.
\<close>

datatype call = Get string | Set string string | Remove string | Dump

fun call_step :: "platform \<Rightarrow> keychain \<times> rng \<Rightarrow> call \<Rightarrow> keychain \<times> rng" where
  "call_step pf (kc, g) (Get name) = (kc, g)"
| "call_step pf (kc, g) (Set name v) = (set_value kc name v, g)"
| "call_step pf (kc, g) (Remove name) = (snd (remove kc name), g)"
| "call_step pf (kc, g) Dump = (kc, snd (dump pf kc g))"

definition calls :: "platform \<Rightarrow> keychain \<times> rng \<Rightarrow> call list \<Rightarrow> keychain \<times> rng" where
  "calls pf st cs = foldl (call_step pf) st cs"

section \<open>The server: the handler of POST /init\<close>

text \<open>
  The request body's \<open>password\<close> is a JSON string or absent (\<open>None\<close>); \<open>!password\<close> holds
  for an absent and for an empty one. The state is \<open>activeKeychain\<close> and the generator; the
  result is the status with the \<open>repr\<close> and \<open>checksum\<close> sent, if any.
\<close>

definition post_init ::
  "platform \<Rightarrow> string option \<Rightarrow> keychain option \<times> rng
     \<Rightarrow> (nat \<times> (string \<times> string) option) \<times> (keychain option \<times> rng)" where
  "post_init pf password st =
     (case password of
        None \<Rightarrow> ((400, None), st)
      | Some p \<Rightarrow>
          if p = [] then ((400, None), st)
          else (let (kc, g1) = init pf p (snd st);
                    (out, g2) = dump pf kc g1
                in ((201, Some out), (Some kc, g2))))"

section \<open>What the platform's primitives guarantee\<close>

text \<open>
  Decoding undoes encoding, for text, for base64 and for JSON (an object's keys are
  unique, and the order of its members is not part of any statement here).
\<close>

definition codecs_correct :: "platform \<Rightarrow> bool" where
  "codecs_correct pf \<longleftrightarrow>
     (\<forall>s. TextDecoder_decode pf (TextEncoder_encode pf s) = s) \<and>
     (\<forall>b. base64_decode pf (base64_encode pf b) = b) \<and>
     (\<forall>ob. distinct (map fst ob) \<longrightarrow>
        (\<exists>ob'. JSON_parse pf (JSON_stringify pf ob) = Some ob' \<and> map_of ob' = map_of ob))"

text \<open>AES-GCM decrypts what it encrypted, under the same key and iv.\<close>

definition aead_correct :: "platform \<Rightarrow> bool" where
  "aead_correct pf \<longleftrightarrow>
     (\<forall>k iv pt. aes_gcm_decrypt pf k iv (aes_gcm_encrypt pf k iv pt) = Some pt)"

text \<open>
  The authenticity an ideal AEAD gives: a ciphertext is accepted under the 256-bit key and
  the 96-bit iv it was made with, and under no other.
\<close>

definition aead_authentic :: "platform \<Rightarrow> bool" where
  "aead_authentic pf \<longleftrightarrow>
     (\<forall>k iv k' iv' pt.
        length k = 32 \<and> length k' = 32 \<and> length iv = 12 \<and> length iv' = 12 \<and>
        (k', iv') \<noteq> (k, iv) \<longrightarrow>
        aes_gcm_decrypt pf k' iv' (aes_gcm_encrypt pf k iv pt) = None)"

text \<open>PBKDF2 is asked for a 256-bit key.\<close>

definition kdf_256 :: "platform \<Rightarrow> bool" where
  "kdf_256 pf \<longleftrightarrow> (\<forall>k0 salt n. length (pbkdf2_rounds pf k0 salt n) = 32)"

text \<open>
  A keychain opened with \<open>password\<close>: its key is the one derived from the password and its
  own salt, as \<open>init\<close> and \<open>load\<close> make it; and the vault's keys are unique.
\<close>

definition opened_with :: "platform \<Rightarrow> string \<Rightarrow> keychain \<Rightarrow> bool" where
  "opened_with pf password kc \<longleftrightarrow>
     encKey kc = deriveKey pf password (base64_decode pf (data_salt kc)) \<and>
     distinct (map fst (vault kc))"

section \<open>A reference platform\<close>

text \<open>
  A small executable platform on which the operations can be run: text is encoded one byte
  per character, byte strings one character per byte; an object is written as the series
  of its keys and values, each character preceded by \<open>+\<close> and each string closed by a
  dot; the cipher writes key and iv in front of the plaintext and checks them on the way
  back. It meets every guarantee above.
\<close>

definition ref_encode :: "string \<Rightarrow> bytes" where
  "ref_encode s = map (\<lambda>c. word_of_nat (of_char c)) s"

definition ref_decode :: "bytes \<Rightarrow> string" where
  "ref_decode b = map (\<lambda>w. char_of (unat w)) b"

definition write_string :: "string \<Rightarrow> string" where
  "write_string s = concat (map (\<lambda>c. [CHR ''+'', c]) s) @ ''.''"

definition ref_stringify :: "obj \<Rightarrow> string" where
  "ref_stringify ob = concat (map (\<lambda>(k, v). write_string k @ write_string v) ob)"

fun read_strings :: "string \<Rightarrow> string list option" where
  "read_strings [] = Some []"
| "read_strings [c] = (if c = CHR ''.'' then Some [[]] else None)"
| "read_strings (c # d # r) =
     (if c = CHR ''.'' then map_option ((#) []) (read_strings (d # r))
      else if c = CHR ''+'' then
        (case read_strings r of Some (f # fs) \<Rightarrow> Some ((d # f) # fs) | _ \<Rightarrow> None)
      else None)"

fun pair_up :: "string list \<Rightarrow> obj option" where
  "pair_up [] = Some []"
| "pair_up [k] = None"
| "pair_up (k # v # r) = map_option ((#) (k, v)) (pair_up r)"

definition ref_parse :: "string \<Rightarrow> obj option" where
  "ref_parse t = (case read_strings t of None \<Rightarrow> None | Some fs \<Rightarrow> pair_up fs)"

definition ref_sha256 :: "bytes \<Rightarrow> bytes" where
  "ref_sha256 b = [word_of_nat (length b), foldr (+) b 0]"

definition ref_pbkdf2 :: "bytes \<Rightarrow> bytes \<Rightarrow> nat \<Rightarrow> bytes" where
  "ref_pbkdf2 k0 salt n = take 16 (k0 @ replicate 16 0) @ take 16 (salt @ replicate 16 0)"

definition ref_encrypt :: "bytes \<Rightarrow> bytes \<Rightarrow> bytes \<Rightarrow> bytes" where
  "ref_encrypt k iv pt = k @ iv @ pt"

definition ref_decrypt :: "bytes \<Rightarrow> bytes \<Rightarrow> bytes \<Rightarrow> bytes option" where
  "ref_decrypt k iv ct =
     (if take (length k + length iv) ct = k @ iv
      then Some (drop (length k + length iv) ct) else None)"

definition ref_platform :: platform where
  "ref_platform =
     \<lparr>TextEncoder_encode = ref_encode, TextDecoder_decode = ref_decode,
      base64_encode = ref_decode, base64_decode = ref_encode,
      JSON_stringify = ref_stringify, JSON_parse = ref_parse,
      sha256 = ref_sha256, pbkdf2_rounds = ref_pbkdf2,
      aes_gcm_encrypt = ref_encrypt, aes_gcm_decrypt = ref_decrypt\<rparr>"

text \<open>A generator that counts, and the keychain of the specification's scenario.\<close>

definition counting :: rng where
  "counting = (\<lambda>i. word_of_nat i)"

definition github_keychain :: keychain where
  "github_keychain =
     set_value (fst (init ref_platform ''correct horse'' counting)) ''github.com'' ''s3cr3t''"


text \<open>
  A representation as \<open>dump\<close> writes them, except that the text sealed under the key of the
  password \<open>correct horse\<close> is \<open>oops\<close>, which is not JSON.
\<close>

definition not_json_repr :: string where
  "not_json_repr =
     (let salt = replicate 16 0; iv = replicate 12 0;
          key = deriveKey ref_platform ''correct horse'' salt
      in JSON_stringify ref_platform
           [(''salt'', encodeBuffer ref_platform salt),
            (''iv'', encodeBuffer ref_platform iv),
            (''ciphertext'', encodeBuffer ref_platform
               (aes_gcm_encrypt ref_platform key iv (stringToBuffer ref_platform ''oops'')))])"

section \<open>The reference platform meets the guarantees\<close>

lemma char_byte: "char_of (unat (word_of_nat (of_char c) :: byte)) = c"
proof -
  have "unat (word_of_nat (of_char c) :: byte) = of_char c mod 256"
    by (simp add: unat_of_nat)
  then show ?thesis by simp
qed

lemma byte_char: "word_of_nat (of_char (char_of (unat (w :: byte)))) = w"
proof -
  have "unat w < 256" using unsigned_less[of w, where ?'a = nat] by simp
  then have "of_char (char_of (unat w)) = unat w" by simp
  then show ?thesis by simp
qed

lemma ref_decode_encode: "ref_decode (ref_encode s) = s"
  by (induction s) (simp_all add: ref_decode_def ref_encode_def char_byte)

lemma ref_encode_decode: "ref_encode (ref_decode b) = b"
  unfolding ref_decode_def ref_encode_def
  by (induction b) (simp_all add: byte_char del: of_char_of)

lemma read_write_string:
  "read_strings (write_string s @ t) = map_option ((#) s) (read_strings t)"
proof (induction s)
  case Nil
  then show ?case by (cases t) (simp_all add: write_string_def)
next
  case (Cons c s)
  then show ?case by (simp add: write_string_def split: option.splits)
qed

lemma read_stringify:
  "read_strings (ref_stringify ob) = Some (concat (map (\<lambda>(k, v). [k, v]) ob))"
proof (induction ob)
  case Nil
  then show ?case by (simp add: ref_stringify_def)
next
  case (Cons p ob)
  obtain k v where p: "p = (k, v)" by (cases p)
  have "ref_stringify (p # ob) = write_string k @ write_string v @ ref_stringify ob"
    by (simp add: ref_stringify_def p)
  with Cons show ?case by (simp add: read_write_string p)
qed

lemma pair_up_flat: "pair_up (concat (map (\<lambda>(k, v). [k, v]) ob)) = Some ob"
  by (induction ob) auto

lemma ref_parse_stringify: "ref_parse (ref_stringify ob) = Some ob"
  by (simp add: ref_parse_def read_stringify pair_up_flat)

lemma ref_codecs_correct: "codecs_correct ref_platform"
  by (simp add: codecs_correct_def ref_platform_def ref_decode_encode ref_encode_decode
      ref_parse_stringify)

lemma ref_aead_correct: "aead_correct ref_platform"
  by (simp add: aead_correct_def ref_platform_def ref_encrypt_def ref_decrypt_def)

lemma ref_aead_authentic: "aead_authentic ref_platform"
  by (auto simp: aead_authentic_def ref_platform_def ref_encrypt_def ref_decrypt_def)

lemma ref_kdf_256: "kdf_256 ref_platform"
  by (auto simp: kdf_256_def ref_platform_def ref_pbkdf2_def min_def)

section \<open>Steps of load and dump\<close>

lemma length_getRandomBytes: "length (fst (getRandomBytes n g)) = n"
  by (simp add: getRandomBytes_def)

lemma check_integrity_falsy: "\<not> truthy t \<Longrightarrow> check_integrity pf repr t = Inr ()"
  by (simp add: check_integrity_def)

lemma check_integrity_mismatch:
  "truthy t \<Longrightarrow> t \<noteq> JStr (encodeBuffer pf (sha256 pf (stringToBuffer pf repr)))
     \<Longrightarrow> check_integrity pf repr t = Inl IntegrityError"
  by (auto simp: check_integrity_def Let_def)

lemma check_integrity_match:
  "check_integrity pf repr (JStr (encodeBuffer pf (sha256 pf (stringToBuffer pf repr)))) = Inr ()"
  by (simp add: check_integrity_def Let_def)

lemma check_integrity_error: "check_integrity pf repr t = Inl e \<Longrightarrow> e = IntegrityError"
  by (auto simp: check_integrity_def Let_def split: if_splits)

lemma decodeBuffer_error: "decodeBuffer pf v = Inl e \<Longrightarrow> e = TypeError"
  by (auto simp: decodeBuffer_def split: jsval.splits)

lemma parse_repr_error: "parse_repr pf repr = Inl e \<Longrightarrow> e = SyntaxError \<or> e = TypeError"
  by (auto simp: parse_repr_def split: option.splits sum.splits dest: decodeBuffer_error)

lemma open_vault_error:
  "open_vault pf password salt iv ct = Inl e \<Longrightarrow> e = DecryptionError \<or> e = SyntaxError"
  by (auto simp: open_vault_def Let_def split: option.splits)

lemma load_unchecked:
  "check_integrity pf repr t = Inr () \<Longrightarrow>
   load pf password repr t =
     (case parse_repr pf repr of
        Inl e \<Rightarrow> Inl e
      | Inr (salt, iv, ct) \<Rightarrow> open_vault pf password salt iv ct)"
  by (simp add: load_def)

lemma load_error_kinds:
  "load pf password repr t = Inl e \<Longrightarrow>
   e = IntegrityError \<or> e = SyntaxError \<or> e = TypeError \<or> e = DecryptionError"
  by (auto simp: load_def split: sum.splits prod.splits
      dest: check_integrity_error parse_repr_error open_vault_error)

lemma get_property_own: "map_of ob name = Some v \<Longrightarrow> get_property ob name = JStr v"
  by (simp add: get_property_def)

lemma parse_repr_fields:
  assumes "codecs_correct pf"
  shows "parse_repr pf (JSON_stringify pf [(''salt'', s), (''iv'', i), (''ciphertext'', c)]) =
         Inr (base64_decode pf s, base64_decode pf i, base64_decode pf c)"
proof -
  let ?ob = "[(''salt'', s), (''iv'', i), (''ciphertext'', c)]"
  have "distinct (map fst ?ob)" by simp
  with assms obtain ob' where p: "JSON_parse pf (JSON_stringify pf ?ob) = Some ob'"
    and m: "map_of ob' = map_of ?ob"
    unfolding codecs_correct_def by blast
  have "get_property ob' ''salt'' = JStr s" "get_property ob' ''iv'' = JStr i"
    "get_property ob' ''ciphertext'' = JStr c"
    by (rule get_property_own, simp add: m)+
  then show ?thesis
    by (simp add: parse_repr_def p decodeBuffer_def)
qed

lemma parse_repr_dump:
  assumes "codecs_correct pf"
  shows "parse_repr pf (JSON_stringify pf (dump_repr pf kc iv)) =
         Inr (base64_decode pf (data_salt kc), iv,
              aes_gcm_encrypt pf (encKey kc) iv (stringToBuffer pf (JSON_stringify pf (vault kc))))"
proof -
  have "\<And>b. base64_decode pf (base64_encode pf b) = b"
    using assms by (simp add: codecs_correct_def)
  then show ?thesis
    by (simp add: dump_repr_def Let_def parse_repr_fields[OF assms] encodeBuffer_def)
qed

lemma open_vault_sealed:
  assumes "codecs_correct pf" and "aead_correct pf" and "opened_with pf password kc"
  shows "\<exists>kc'. open_vault pf password (base64_decode pf (data_salt kc)) iv
           (aes_gcm_encrypt pf (encKey kc) iv (stringToBuffer pf (JSON_stringify pf (vault kc))))
           = Inr kc' \<and> map_of (vault kc') = map_of (vault kc) \<and> encKey kc' = encKey kc
           \<and> base64_decode pf (data_salt kc') = base64_decode pf (data_salt kc)"
proof -
  from assms(3) have key: "deriveKey pf password (base64_decode pf (data_salt kc)) = encKey kc"
    and d: "distinct (map fst (vault kc))"
    by (simp_all add: opened_with_def)
  from assms(1) d obtain v where p: "JSON_parse pf (JSON_stringify pf (vault kc)) = Some v"
    and m: "map_of v = map_of (vault kc)"
    unfolding codecs_correct_def by blast
  have t: "\<And>s. TextDecoder_decode pf (TextEncoder_encode pf s) = s"
    and b: "\<And>b. base64_decode pf (base64_encode pf b) = b"
    using assms(1) by (simp_all add: codecs_correct_def)
  have a: "\<And>k iv pt. aes_gcm_decrypt pf k iv (aes_gcm_encrypt pf k iv pt) = Some pt"
    using assms(2) by (simp add: aead_correct_def)
  show ?thesis
    by (simp add: open_vault_def key a bufferToString_def stringToBuffer_def t p m
        constructor_def encodeBuffer_def b)
qed

lemma dump_repr_string:
  "fst (fst (dump pf kc g)) = JSON_stringify pf (dump_repr pf kc (fst (getRandomBytes 12 g)))"
  by (simp add: dump_def Let_def split: prod.splits)

lemma dump_checksum:
  "snd (fst (dump pf kc g)) =
     encodeBuffer pf (sha256 pf (stringToBuffer pf (fst (fst (dump pf kc g)))))"
  by (simp add: dump_def Let_def split: prod.splits)

lemma dump_rng: "snd (dump pf kc g) = snd (getRandomBytes 12 g)"
  by (simp add: dump_def Let_def split: prod.splits)

lemma getRandomBytes_fst: "fst (getRandomBytes n g) = map g [0..<n]"
  by (simp add: getRandomBytes_def)

lemma getRandomBytes_snd: "snd (getRandomBytes n g) = (\<lambda>i. g (i + n))"
  by (simp add: getRandomBytes_def)


lemma dump_rng_advances: "snd (dump pf kc g) = (\<lambda>i. g (i + 12))"
  by (simp add: dump_rng getRandomBytes_snd)

lemma init_rng: "snd (init pf password g) = (\<lambda>i. g (i + 16))"
  by (simp add: init_def getRandomBytes_def Let_def)


lemma load_dump:
  assumes "codecs_correct pf" and "aead_correct pf" and "opened_with pf password kc"
    and "\<not> truthy t \<or> t = JStr (snd (fst (dump pf kc g)))"
  shows "\<exists>kc'. load pf password (fst (fst (dump pf kc g))) t = Inr kc' \<and>
           map_of (vault kc') = map_of (vault kc) \<and> encKey kc' = encKey kc"
proof -
  have c: "check_integrity pf (fst (fst (dump pf kc g))) t = Inr ()"
    using assms(4) by (auto simp: check_integrity_falsy dump_checksum check_integrity_match)
  let ?iv = "fst (getRandomBytes 12 g)"
  have "load pf password (fst (fst (dump pf kc g))) t =
        open_vault pf password (base64_decode pf (data_salt kc)) ?iv
          (aes_gcm_encrypt pf (encKey kc) ?iv (stringToBuffer pf (JSON_stringify pf (vault kc))))"
    unfolding load_unchecked[OF c]
    by (simp add: dump_repr_string parse_repr_dump[OF assms(1)])
  with open_vault_sealed[OF assms(1-3), of ?iv] show ?thesis by auto
qed

section \<open>Reading, writing and deleting entries\<close>

lemma vault_init: "vault (fst (init pf password g)) = []"
  by (simp add: init_def constructor_def Let_def split: prod.splits)

lemma vault_github: "vault github_keychain = [(''github.com'', ''s3cr3t'')]"
  by (simp add: github_keychain_def set_value_def vault_init put_property_def)

lemma get_own: "map_of (vault kc) name = Some v \<Longrightarrow> v \<noteq> [] \<Longrightarrow> get kc name = JStr v"
  by (simp add: get_def get_property_def js_or_def)

lemma get_absent:
  "map_of (vault kc) name = None \<Longrightarrow> name \<notin> set Object_prototype_names \<Longrightarrow> get kc name = JNull"
  by (simp add: get_def get_property_def js_or_def)

lemma remove_own:
  "map_of (vault kc) name = Some v \<Longrightarrow>
   fst (remove kc name) \<and> map_of (vault (snd (remove kc name))) = (map_of (vault kc))(name := None)"
proof -
  have "map_of (filter (\<lambda>(k, w). k \<noteq> name) ob) = (map_of ob)(name := None)" for ob :: obj
    by (induction ob) auto
  then show "map_of (vault kc) name = Some v \<Longrightarrow> ?thesis"
    by (simp add: remove_def has_property_def delete_property_def)
qed

lemma remove_absent:
  "map_of (vault kc) name = None \<Longrightarrow> name \<notin> set Object_prototype_names \<Longrightarrow>
   remove kc name = (False, kc)"
  by (simp add: remove_def has_property_def)

section \<open>Keychains and the password they were opened with\<close>

lemma put_property_distinct:
  assumes "distinct (map fst ob)"
  shows "distinct (map fst (put_property ob name v))"
proof (cases "map_of ob name = None")
  case True
  then have "name \<notin> fst ` set ob" by (simp add: map_of_eq_None_iff)
  with True assms show ?thesis by (auto simp: put_property_def)
next
  case False
  let ?f = "\<lambda>(k, w). if k = name then (k, v) else (k, w)"
  have "map fst (map ?f ob) = map fst ob" by (induction ob) auto
  moreover from False have "put_property ob name v = map ?f ob"
    by (simp add: put_property_def)
  ultimately show ?thesis using assms by (simp only:)
qed

lemma delete_property_distinct:
  "distinct (map fst ob) \<Longrightarrow> distinct (map fst (delete_property ob name))"
  by (simp add: delete_property_def distinct_map_filter)

lemma init_opened_with:
  assumes "codecs_correct pf"
  shows "opened_with pf password (fst (init pf password g))"
proof -
  have "\<And>b. base64_decode pf (base64_encode pf b) = b"
    using assms by (simp add: codecs_correct_def)
  then show ?thesis
    by (simp add: opened_with_def init_def constructor_def encodeBuffer_def Let_def
        split: prod.splits)
qed

lemma set_value_opened_with:
  "opened_with pf password kc \<Longrightarrow> opened_with pf password (set_value kc name v)"
  by (simp add: opened_with_def set_value_def put_property_distinct)

lemma remove_opened_with:
  "opened_with pf password kc \<Longrightarrow> opened_with pf password (snd (remove kc name))"
  by (simp add: opened_with_def remove_def delete_property_distinct)

lemma call_step_opened_with:
  "opened_with pf password (fst st) \<Longrightarrow> opened_with pf password (fst (call_step pf st c))"
  by (cases st; cases c) (simp_all add: set_value_opened_with remove_opened_with)

lemma call_step_salt: "data_salt (fst (call_step pf st c)) = data_salt (fst st)"
  by (cases st; cases c) (simp_all add: set_value_def remove_def)

lemma calls_opened_with:
  "opened_with pf password (fst st) \<Longrightarrow> opened_with pf password (fst (calls pf st cs))"
  unfolding calls_def
  by (induction cs arbitrary: st) (simp_all add: call_step_opened_with)

lemma calls_salt: "data_salt (fst (calls pf st cs)) = data_salt (fst st)"
  unfolding calls_def
  by (induction cs arbitrary: st) (simp_all add: call_step_salt)

lemma call_step_rng:
  "snd (call_step pf (kc, g) c) = (\<lambda>i. g (i + (if c = Dump then 12 else 0)))"
  by (cases c) (simp_all add: dump_rng_advances)

lemma calls_rng:
  "snd (calls pf (kc, g) cs) = (\<lambda>i. g (i + 12 * length (filter (\<lambda>c. c = Dump) cs)))"
proof (induction cs arbitrary: kc g)
  case Nil
  then show ?case by (simp add: calls_def)
next
  case (Cons c cs)
  obtain kc' g' where s: "call_step pf (kc, g) c = (kc', g')" by (cases "call_step pf (kc, g) c")
  then have g': "g' = (\<lambda>i. g (i + (if c = Dump then 12 else 0)))"
    using call_step_rng[of pf kc g c] by simp
  have "calls pf (kc, g) (c # cs) = calls pf (kc', g') cs"
    by (simp add: calls_def s)
  then show ?case
    by (simp add: Cons.IH g' ac_simps)
qed


lemma init_salt:
  "data_salt (fst (init pf password g)) = encodeBuffer pf (fst (getRandomBytes 16 g))"
  by (simp add: init_def constructor_def Let_def split: prod.splits)


lemma github_opened_with: "opened_with ref_platform ''correct horse'' github_keychain"
  unfolding github_keychain_def
  by (intro set_value_opened_with init_opened_with ref_codecs_correct)

lemma get_loaded:
  "map_of (vault kc') = map_of (vault kc) \<Longrightarrow> get kc' name = get kc name"
  by (simp add: get_def get_property_def)

section \<open>What load answers\<close>

lemma load_not_json:
  assumes "check_integrity pf repr t = Inr ()" and "parse_repr pf repr = Inr (salt, iv, ct)"
    and "aes_gcm_decrypt pf (deriveKey pf password salt) iv ct = Some pt"
    and "JSON_parse pf (bufferToString pf pt) = None"
  shows "load pf password repr t = Inl SyntaxError"
  by (simp add: load_unchecked[OF assms(1)] assms(2-4) open_vault_def)

lemma load_decrypt_fails:
  assumes "check_integrity pf repr t = Inr ()" and "parse_repr pf repr = Inr (salt, iv, ct)"
  shows "load pf password repr t = Inl DecryptionError \<longleftrightarrow>
         aes_gcm_decrypt pf (deriveKey pf password salt) iv ct = None"
  by (auto simp: load_unchecked[OF assms(1)] assms(2) open_vault_def Let_def
      split: option.splits)

lemma check_integrity_platform:
  "check_integrity (pf\<lparr>JSON_parse := jp, pbkdf2_rounds := kd, aes_gcm_decrypt := de\<rparr>) repr t =
   check_integrity pf repr t"
  by (simp add: check_integrity_def stringToBuffer_def encodeBuffer_def)

lemma load_integrity_error:
  "check_integrity pf repr t = Inl IntegrityError \<Longrightarrow> load pf password repr t = Inl IntegrityError"
  by (simp add: load_def)

lemma load_checked_no_integrity_error:
  assumes "check_integrity pf repr t = Inr ()"
  shows "load pf password repr t \<noteq> Inl IntegrityError"
  unfolding load_unchecked[OF assms]
  by (auto split: sum.splits prod.splits dest: parse_repr_error open_vault_error)

lemma check_integrity_dump:
  "check_integrity pf (fst (fst (dump pf kc g))) (JStr (snd (fst (dump pf kc g)))) = Inr ()"
  by (simp add: dump_checksum check_integrity_match)

lemma load_no_operation_error: "load pf password repr t \<noteq> Inl OperationError"
  using load_error_kinds[of pf password repr t OperationError] by auto

lemma load_wrong_key:
  assumes "codecs_correct pf" and "aead_authentic pf" and "kdf_256 pf"
    and "opened_with pf password kc"
    and "deriveKey pf password' (base64_decode pf (data_salt kc)) \<noteq> encKey kc"
    and "\<not> truthy t \<or> t = JStr (snd (fst (dump pf kc g)))"
  shows "load pf password' (fst (fst (dump pf kc g))) t = Inl DecryptionError"
proof -
  let ?salt = "base64_decode pf (data_salt kc)"
  let ?iv = "fst (getRandomBytes 12 g)"
  let ?k' = "deriveKey pf password' ?salt"
  have len: "\<And>p s. length (deriveKey pf p s) = 32"
    using assms(3) by (simp add: kdf_256_def deriveKey_def)
  have k: "length (encKey kc) = 32"
    using assms(4) len by (simp add: opened_with_def)
  have c: "check_integrity pf (fst (fst (dump pf kc g))) t = Inr ()"
    using assms(6) by (auto simp: check_integrity_falsy check_integrity_dump)
  have "aes_gcm_decrypt pf ?k' ?iv
      (aes_gcm_encrypt pf (encKey kc) ?iv (stringToBuffer pf (JSON_stringify pf (vault kc)))) = None"
    using assms(2) assms(5) len[of password' ?salt] k length_getRandomBytes[of 12 g]
    unfolding aead_authentic_def by blast
  then show ?thesis
    unfolding load_unchecked[OF c]
    by (simp add: dump_repr_string parse_repr_dump[OF assms(1)] open_vault_def)
qed


section \<open>Passwords that HMAC does not tell apart\<close>

lemma hmac_key_zero: "length K < 64 \<Longrightarrow> hmac_key H (K @ [0]) = hmac_key H K"
proof -
  assume "length K < 64"
  then have "64 - length K = Suc (63 - length K)" by simp
  then have "replicate (64 - length K) (0::byte) = 0 # replicate (63 - length K) 0"
    by (simp only: replicate_Suc)
  with \<open>length K < 64\<close> show ?thesis by (simp add: hmac_key_def)
qed

lemma deriveKey_trailing_nul:
  assumes "TextEncoder_encode pf (p @ [CHR 0x00]) = TextEncoder_encode pf p @ [0]"
    and "length (TextEncoder_encode pf p) < 64"
  shows "deriveKey pf (p @ [CHR 0x00]) salt = deriveKey pf p salt"
  by (simp add: deriveKey_def stringToBuffer_def assms(1) hmac_key_zero[OF assms(2)])

text \<open>
  So a keychain opened with a password of fewer than 64 bytes is, to the code, also opened
  with that password followed by NUL, which UTF-8 encodes as one zero byte; \<open>load\<close> with
  the longer password then opens what \<open>dump\<close> sealed under the shorter one.
\<close>

lemma opened_with_trailing_nul:
  assumes "opened_with pf password kc"
    and "TextEncoder_encode pf (password @ [CHR 0x00]) = TextEncoder_encode pf password @ [0]"
    and "length (TextEncoder_encode pf password) < 64"
  shows "opened_with pf (password @ [CHR 0x00]) kc"
  using assms(1) by (simp add: opened_with_def deriveKey_trailing_nul[OF assms(2,3)])

lemma nul_password_opens:
  assumes "codecs_correct pf" and "aead_correct pf" and "opened_with pf password kc"
    and "TextEncoder_encode pf (password @ [CHR 0x00]) = TextEncoder_encode pf password @ [0]"
    and "length (TextEncoder_encode pf password) < 64"
  shows "\<exists>kc'. load pf (password @ [CHR 0x00]) (fst (fst (dump pf kc g))) JUndefined = Inr kc' \<and>
               map_of (vault kc') = map_of (vault kc)"
  using load_dump[OF assms(1,2) opened_with_trailing_nul[OF assms(3-5)], of JUndefined g]
  by auto

section \<open>Runs on the reference platform\<close>

lemma parse_not_json:
  "parse_repr ref_platform not_json_repr =
     Inr (replicate 16 0, replicate 12 0,
          aes_gcm_encrypt ref_platform (deriveKey ref_platform ''correct horse'' (replicate 16 0))
            (replicate 12 0) (stringToBuffer ref_platform ''oops''))"
proof -
  have b: "\<And>b. base64_decode ref_platform (encodeBuffer ref_platform b) = b"
    using ref_codecs_correct by (simp add: codecs_correct_def encodeBuffer_def)
  show ?thesis
    unfolding not_json_repr_def Let_def parse_repr_fields[OF ref_codecs_correct] b ..
qed

lemma oops_not_json:
  "JSON_parse ref_platform (bufferToString ref_platform (stringToBuffer ref_platform ''oops''))
     = None"
proof -
  have "bufferToString ref_platform (stringToBuffer ref_platform ''oops'') = ''oops''"
    by (simp add: bufferToString_def stringToBuffer_def ref_platform_def ref_decode_encode)
  then show ?thesis by (simp add: ref_platform_def ref_parse_def)
qed

lemma github_nul_opened_with:
  "opened_with ref_platform (''correct horse'' @ [CHR 0x00]) github_keychain"
  by (rule opened_with_trailing_nul[OF github_opened_with])
    (simp_all add: ref_platform_def ref_encode_def)

lemma ref_keys_differ:
  "deriveKey ref_platform ''wrong password'' salt \<noteq> deriveKey ref_platform ''correct horse'' salt"
  by (simp add: deriveKey_def ref_platform_def ref_pbkdf2_def hmac_key_def stringToBuffer_def
      ref_encode_def)



lemma counting_16: "map counting [0..<16] = [0, 1, 2, 3, 4, 5, 6, 7, 8, 9, 10, 11, 12, 13, 14, 15]"
  by (simp add: counting_def upt_rec)



section \<open>POST /init\<close>

lemma init_working:
  assumes "codecs_correct pf" and "aead_correct pf"
  shows "\<exists>kc'. load pf password (fst (fst (dump pf (fst (init pf password g)) g'))) JUndefined
           = Inr kc' \<and> map_of (vault kc') = Map.empty"
  using load_dump[OF assms init_opened_with[OF assms(1)], of JUndefined password g g']
  by (auto simp: vault_init)

lemma post_init_rejects:
  "post_init pf None st = ((400, None), st) \<and> post_init pf (Some []) st = ((400, None), st)"
  by (simp add: post_init_def)

lemma post_init_creates:
  "p \<noteq> [] \<Longrightarrow>
   fst (fst (post_init pf (Some p) st)) = 201 \<and>
   fst (snd (post_init pf (Some p) st)) = Some (fst (init pf p (snd st)))"
  by (simp add: post_init_def Let_def split: prod.splits)

lemma post_init_answer:
  "p \<noteq> [] \<Longrightarrow>
   post_init pf (Some p) st =
     ((201, Some (fst (dump pf (fst (init pf p (snd st))) (snd (init pf p (snd st)))))),
      (Some (fst (init pf p (snd st))),
       snd (dump pf (fst (init pf p (snd st))) (snd (init pf p (snd st))))))"
  by (simp add: post_init_def Let_def split: prod.splits)

section \<open>The properties of the specification\<close>

text \<open>
  C1. Round trip: for every password and every keychain opened with it, whatever its
  entries, \<open>load\<close> with the same password on the representation that \<open>dump\<close> returns gives
  a keychain with the same entries map, with or without the checksum \<open>dump\<close> returned; so
  \<open>get\<close> answers the same on both. (Keychains made by \<open>init\<close> and any series of calls are
  opened with their password: \<open>init_opened_with\<close>, \<open>calls_opened_with\<close>.)
\<close>

theorem seal_open_roundtrip:
  assumes "codecs_correct pf" and "aead_correct pf" and "opened_with pf password kc"
    and "dump pf kc g = ((repr, checksum), g')"
  shows "\<exists>kc'. load pf password repr JUndefined = Inr kc' \<and>
               load pf password repr (JStr checksum) = Inr kc' \<and>
               map_of (vault kc') = map_of (vault kc) \<and>
               (\<forall>name. get kc' name = get kc name)"
proof -
  have r: "repr = fst (fst (dump pf kc g))" and c: "checksum = snd (fst (dump pf kc g))"
    using assms(4) by simp_all
  obtain kc' where l: "load pf password repr JUndefined = Inr kc'"
    and m: "map_of (vault kc') = map_of (vault kc)"
    using load_dump[OF assms(1-3), of JUndefined g] r by auto
  have "load pf password repr (JStr checksum) = load pf password repr JUndefined"
    using check_integrity_dump[of pf kc g]
    by (simp add: r c load_unchecked check_integrity_falsy)
  with l m show ?thesis by (auto intro: get_loaded)
qed

text \<open>
  The scenario of the specification: \<open>create("correct horse")\<close>,
  \<open>set("github.com", "s3cr3t")\<close>, seal, open with the same password, and \<open>get\<close>.
\<close>

theorem seal_open_roundtrip_witness:
  "\<exists>kc'. load ref_platform ''correct horse''
            (fst (fst (dump ref_platform github_keychain counting))) JUndefined = Inr kc' \<and>
         get kc' ''github.com'' = JStr ''s3cr3t''"
proof -
  have "get github_keychain ''github.com'' = JStr ''s3cr3t''"
    by (rule get_own) (simp_all add: vault_github)
  moreover have "dump ref_platform github_keychain counting =
      ((fst (fst (dump ref_platform github_keychain counting)),
        snd (fst (dump ref_platform github_keychain counting))),
       snd (dump ref_platform github_keychain counting))"
    by simp
  ultimately show ?thesis
    using seal_open_roundtrip[OF ref_codecs_correct ref_aead_correct github_opened_with,
        where g = counting and g' = "snd (dump ref_platform github_keychain counting)"
          and repr = "fst (fst (dump ref_platform github_keychain counting))"
          and checksum = "snd (fst (dump ref_platform github_keychain counting))"]
    by auto
qed

text \<open>
  Against C2 as stated: the ciphertext of \<open>not_json_repr\<close> decrypts under the password's
  key, the plaintext is not JSON, and \<open>load\<close> fails with the SyntaxError of \<open>JSON.parse\<close>,
  not with a DecryptionError.
\<close>

theorem load_not_json_counterexample:
  "load ref_platform ''correct horse'' not_json_repr JUndefined = Inl SyntaxError \<and>
   load ref_platform ''correct horse'' not_json_repr JUndefined \<noteq> Inl DecryptionError"
proof -
  have d: "aes_gcm_decrypt ref_platform (deriveKey ref_platform ''correct horse'' (replicate 16 0))
      (replicate 12 0)
      (aes_gcm_encrypt ref_platform (deriveKey ref_platform ''correct horse'' (replicate 16 0))
        (replicate 12 0) (stringToBuffer ref_platform ''oops''))
     = Some (stringToBuffer ref_platform ''oops'')"
    using ref_aead_correct unfolding aead_correct_def by blast
  have "load ref_platform ''correct horse'' not_json_repr JUndefined = Inl SyntaxError"
    by (rule load_not_json[OF _ parse_not_json d oops_not_json]) (simp add: check_integrity_falsy)
  then show ?thesis by simp
qed

text \<open>
  C2, as the code has it. Once the integrity check is passed or skipped and the
  representation is parsed, \<open>load\<close> fails with a DecryptionError exactly when authenticated
  decryption fails. When decryption succeeds and \<open>JSON.parse\<close> rejects the plaintext, the
  SyntaxError of \<open>JSON.parse\<close> reaches the caller as it is: the \<open>try\<close> encloses
  \<open>subtle.decrypt\<close> only.
\<close>

theorem load_plaintext_not_json:
  assumes "check_integrity pf repr t = Inr ()" and "parse_repr pf repr = Inr (salt, iv, ct)"
  shows "(load pf password repr t = Inl DecryptionError \<longleftrightarrow>
            aes_gcm_decrypt pf (deriveKey pf password salt) iv ct = None) \<and>
         (\<forall>pt. aes_gcm_decrypt pf (deriveKey pf password salt) iv ct = Some pt \<and>
               JSON_parse pf (bufferToString pf pt) = None \<longrightarrow>
               load pf password repr t = Inl SyntaxError)"
  using load_decrypt_fails[OF assms] load_not_json[OF assms] by blast

theorem load_plaintext_not_json_witness:
  "aes_gcm_decrypt ref_platform (deriveKey ref_platform ''correct horse'' (replicate 16 0))
      (replicate 12 0)
      (aes_gcm_encrypt ref_platform (deriveKey ref_platform ''correct horse'' (replicate 16 0))
        (replicate 12 0) (stringToBuffer ref_platform ''oops''))
     = Some (stringToBuffer ref_platform ''oops'') \<and>
   load ref_platform ''correct horse'' not_json_repr (JStr []) = Inl SyntaxError"
proof -
  have c: "check_integrity ref_platform not_json_repr (JStr []) = Inr ()"
    by (simp add: check_integrity_falsy)
  have d: "aes_gcm_decrypt ref_platform (deriveKey ref_platform ''correct horse'' (replicate 16 0))
      (replicate 12 0)
      (aes_gcm_encrypt ref_platform (deriveKey ref_platform ''correct horse'' (replicate 16 0))
        (replicate 12 0) (stringToBuffer ref_platform ''oops''))
     = Some (stringToBuffer ref_platform ''oops'')"
    using ref_aead_correct unfolding aead_correct_def by blast
  from load_plaintext_not_json[OF c parse_not_json, of "''correct horse''"] d oops_not_json
  show ?thesis by blast
qed

text \<open>
  Against C3 as stated: the empty string is a supplied checksum that differs from the
  digest of the representation, and \<open>load\<close> does not fail, it opens the vault.
\<close>

theorem empty_checksum_counterexample:
  "JStr [] \<noteq>
     JStr (encodeBuffer ref_platform (sha256 ref_platform (stringToBuffer ref_platform
       (fst (fst (dump ref_platform github_keychain counting)))))) \<and>
   \<not> isl (load ref_platform ''correct horse''
       (fst (fst (dump ref_platform github_keychain counting))) (JStr []))"
proof -
  have "\<exists>kc'. load ref_platform ''correct horse''
      (fst (fst (dump ref_platform github_keychain counting))) (JStr []) = Inr kc'"
    using load_dump[OF ref_codecs_correct ref_aead_correct github_opened_with, of "JStr []" counting]
    by auto
  then show ?thesis
    by (auto simp: encodeBuffer_def ref_platform_def ref_sha256_def ref_decode_def)
qed

text \<open>
  C3, as the code has it. For every password, representation and truthy (for a string:
  non-empty) \<open>trustedDataCheck\<close> that differs from the base64 SHA-256 digest of the raw
  representation string, \<open>load\<close> fails with an IntegrityError, whatever \<open>JSON.parse\<close>, the
  key derivation and the decryption would answer: none of them is reached. And \<open>load\<close> on
  the pair \<open>dump\<close> returns never fails with an IntegrityError, under any password.
\<close>

theorem load_checks_nonempty_checksum:
  "(truthy t \<and> t \<noteq> JStr (encodeBuffer pf (sha256 pf (stringToBuffer pf repr))) \<longrightarrow>
      load (pf\<lparr>JSON_parse := jp, pbkdf2_rounds := kd, aes_gcm_decrypt := de\<rparr>) password repr t
        = Inl IntegrityError) \<and>
   load pf password' (fst (fst (dump pf kc g))) (JStr (snd (fst (dump pf kc g))))
     \<noteq> Inl IntegrityError"
  using check_integrity_mismatch[of t pf repr]
    check_integrity_platform[where pf = pf and jp = jp and kd = kd and de = de and repr = repr
      and t = t]
    load_integrity_error load_checked_no_integrity_error[OF check_integrity_dump]
  by auto

theorem load_checks_nonempty_checksum_witness:
  "load ref_platform ''correct horse'' ''not a representation'' (JStr ''AAAA'') = Inl IntegrityError \<and>
   load ref_platform ''wrong password'' (fst (fst (dump ref_platform github_keychain counting)))
     (JStr (snd (fst (dump ref_platform github_keychain counting)))) \<noteq> Inl IntegrityError"
proof -
  have "JStr ''AAAA'' \<noteq> JStr (encodeBuffer ref_platform (sha256 ref_platform
      (stringToBuffer ref_platform ''not a representation'')))"
    by (simp add: encodeBuffer_def ref_platform_def ref_sha256_def ref_decode_def)
  moreover have "truthy (JStr ''AAAA'')" by simp
  moreover have "ref_platform\<lparr>JSON_parse := JSON_parse ref_platform,
      pbkdf2_rounds := pbkdf2_rounds ref_platform,
      aes_gcm_decrypt := aes_gcm_decrypt ref_platform\<rparr> = ref_platform"
    by simp
  ultimately show ?thesis
    using load_checks_nonempty_checksum[where t = "JStr ''AAAA''" and pf = ref_platform
        and repr = "''not a representation''" and jp = "JSON_parse ref_platform"
        and kd = "pbkdf2_rounds ref_platform" and de = "aes_gcm_decrypt ref_platform"
        and password = "''correct horse''" and password' = "''wrong password''"
        and kc = github_keychain and g = counting]
    by simp
qed

text \<open>
  Against C4 as stated: the password \<open>correct horse\<close> followed by the character NUL is
  a different password; HMAC fills the shorter key with zero bytes, so PBKDF2 derives the
  same key from both, and \<open>load\<close> opens the vault and \<open>get\<close> reads the secret. The same
  holds on every platform (\<open>nul_password_opens\<close>).
\<close>

theorem nul_password_counterexample:
  "''correct horse'' @ [CHR 0x00] \<noteq> ''correct horse'' \<and>
   \<not> isl (load ref_platform (''correct horse'' @ [CHR 0x00])
       (fst (fst (dump ref_platform github_keychain counting))) JUndefined) \<and>
   get (projr (load ref_platform (''correct horse'' @ [CHR 0x00])
       (fst (fst (dump ref_platform github_keychain counting))) JUndefined)) ''github.com''
     = JStr ''s3cr3t''"
proof -
  obtain kc' where l: "load ref_platform (''correct horse'' @ [CHR 0x00])
      (fst (fst (dump ref_platform github_keychain counting))) JUndefined = Inr kc'"
    and m: "map_of (vault kc') = map_of (vault github_keychain)"
    using load_dump[OF ref_codecs_correct ref_aead_correct github_nul_opened_with,
        of JUndefined counting] by auto
  have "get kc' ''github.com'' = JStr ''s3cr3t''"
    by (rule get_own) (simp_all add: m vault_github)
  with l show ?thesis by simp
qed

text \<open>
  C4, as the code has it. For a representation that \<open>dump\<close> produced from a keychain opened
  with a password, \<open>load\<close> with a password whose derived key (over the stored salt) differs
  from the keychain's fails with a DecryptionError, given an AEAD that accepts a ciphertext
  under no other key; it returns no keychain then. On no input at all does \<open>load\<close> fail
  with the OperationError of \<open>subtle.decrypt\<close>.
\<close>

theorem wrong_key_rejected:
  assumes "codecs_correct pf" and "aead_authentic pf" and "kdf_256 pf"
    and "opened_with pf password kc"
    and "deriveKey pf password' (base64_decode pf (data_salt kc)) \<noteq> encKey kc"
    and "\<not> truthy t \<or> t = JStr (snd (fst (dump pf kc g)))"
  shows "load pf password' (fst (fst (dump pf kc g))) t = Inl DecryptionError \<and>
         load pf p r c \<noteq> Inl OperationError"
  using load_wrong_key[OF assms] load_no_operation_error by simp

theorem wrong_key_rejected_witness:
  "load ref_platform ''wrong password'' (fst (fst (dump ref_platform github_keychain counting)))
     JUndefined = Inl DecryptionError \<and>
   load ref_platform ''wrong password'' (fst (fst (dump ref_platform github_keychain counting)))
     (JStr (snd (fst (dump ref_platform github_keychain counting)))) = Inl DecryptionError"
proof -
  have k: "deriveKey ref_platform ''wrong password''
      (base64_decode ref_platform (data_salt github_keychain)) \<noteq> encKey github_keychain"
    using github_opened_with ref_keys_differ by (simp add: opened_with_def)
  note w = wrong_key_rejected[OF ref_codecs_correct ref_aead_authentic ref_kdf_256
      github_opened_with k]
  from w[of JUndefined counting] w[of "JStr (snd (fst (dump ref_platform github_keychain counting)))"
      counting]
  show ?thesis by simp
qed

text \<open>
  C5. \<open>get(name)\<close> is to return exactly the value stored under \<open>name\<close> when it is present,
  and an explicit not-found result when it is absent. The code reads
  \<open>this.secrets.vault[name] || null\<close>: an entry whose secret is the empty string is present
  and is reported as not found (\<open>null\<close>), and a name the vault does not hold but
  \<open>Object.prototype\<close> does yields the inherited member instead of \<open>null\<close>. For a present
  name with a non-empty secret (\<open>get_own\<close>) and for an absent name that
  \<open>Object.prototype\<close> does not define (\<open>get_absent\<close>) the code does what the specification says.
\<close>

theorem get_diverges:
  "map_of (vault (set_value github_keychain ''example.org'' [])) ''example.org'' = Some [] \<and>
   get (set_value github_keychain ''example.org'' []) ''example.org'' = JNull \<and>
   map_of (vault github_keychain) ''toString'' = None \<and>
   get github_keychain ''toString'' = JNative ''toString''"
  by (simp add: set_value_def vault_github put_property_def get_def get_property_def js_or_def
      Object_prototype_names_def)

text \<open>
  C6. \<open>remove(name)\<close> is to report false and change nothing for a name that is not in the
  entries, and to delete and report true for one that is. The code tests \<open>name in vault\<close>,
  which also holds for the names \<open>Object.prototype\<close> defines: for such a name that the
  vault does not hold, \<open>remove\<close> changes nothing and reports true. For every other absent
  name it reports false (\<open>remove_absent\<close>), and a present name is deleted (\<open>remove_own\<close>).
\<close>

theorem remove_diverges:
  "map_of (vault github_keychain) ''toString'' = None \<and>
   remove github_keychain ''toString'' = (True, github_keychain)"
  by (simp add: vault_github remove_def has_property_def delete_property_def
      Object_prototype_names_def)




text \<open>
  C8. \<open>init\<close> takes the first 16 bytes of the generator as the salt, stores them in
  base64 and leaves the generator 16 bytes on. No later call (\<open>get\<close>, \<open>set\<close>, \<open>remove\<close>,
  \<open>dump\<close>, in any number and order) changes the stored salt; the generator moves on by 12
  bytes for each \<open>dump\<close> and not otherwise, so no second salt is drawn. The representation
  \<open>dump\<close> produces after these calls carries the salt: as the member \<open>salt\<close> of the object
  written, and as the salt \<open>load\<close> reads back, which is the 16 bytes \<open>init\<close> drew.
\<close>

theorem salt_generated_once:
  assumes "codecs_correct pf" and "init pf password g = (kc0, g0)"
    and "calls pf (kc0, g0) cs = (kc, g1)"
  shows "length (fst (getRandomBytes 16 g)) = 16 \<and>
         fst (getRandomBytes 16 g) = map g [0..<16] \<and>
         g0 = (\<lambda>i. g (i + 16)) \<and>
         g1 = (\<lambda>i. g (i + 16 + 12 * length (filter (\<lambda>c. c = Dump) cs))) \<and>
         data_salt kc0 = encodeBuffer pf (fst (getRandomBytes 16 g)) \<and>
         data_salt kc0 = encodeBuffer pf (map g [0..<16]) \<and>
         data_salt kc = data_salt kc0 \<and>
         map_of (dump_repr pf kc (fst (getRandomBytes 12 g1))) ''salt'' = Some (data_salt kc0) \<and>
         (\<exists>iv ct. parse_repr pf (fst (fst (dump pf kc g1)))
                    = Inr (fst (getRandomBytes 16 g), iv, ct)) \<and>
         (\<exists>iv ct. parse_repr pf (fst (fst (dump pf kc g1))) = Inr (map g [0..<16], iv, ct))"
proof -
  have s0: "data_salt kc0 = encodeBuffer pf (fst (getRandomBytes 16 g))"
    using init_salt[of pf password g] assms(2) by simp
  have s: "data_salt kc = data_salt kc0"
    using calls_salt[of pf "(kc0, g0)" cs] assms(3) by simp
  have g0: "g0 = (\<lambda>i. g (i + 16))"
    using init_rng[of pf password g] assms(2) by simp
  have g1: "g1 = (\<lambda>i. g (i + 16 + 12 * length (filter (\<lambda>c. c = Dump) cs)))"
    using calls_rng[of pf kc0 g0 cs] assms(3) by (simp add: g0 ac_simps)
  have b: "base64_decode pf (data_salt kc) = fst (getRandomBytes 16 g)"
    using assms(1) by (simp add: s s0 encodeBuffer_def codecs_correct_def)
  have f: "map_of (dump_repr pf kc (fst (getRandomBytes 12 g1))) ''salt'' = Some (data_salt kc0)"
    by (simp add: dump_repr_def Let_def s)
  have p: "\<exists>iv ct. parse_repr pf (fst (fst (dump pf kc g1)))
      = Inr (fst (getRandomBytes 16 g), iv, ct)"
    by (simp add: dump_repr_string parse_repr_dump[OF assms(1)] b)
  have e: "fst (getRandomBytes 16 g) = map g [0..<16]" by (rule getRandomBytes_fst)
  from s0 s f p g0 g1 show ?thesis unfolding e by simp
qed

theorem salt_generated_once_witness:
  "data_salt (fst (calls ref_platform (init ref_platform ''correct horse'' counting)
       [Set ''github.com'' ''s3cr3t'', Dump, Remove ''github.com'', Dump]))
     = encodeBuffer ref_platform [0, 1, 2, 3, 4, 5, 6, 7, 8, 9, 10, 11, 12, 13, 14, 15] \<and>
   snd (calls ref_platform (init ref_platform ''correct horse'' counting)
       [Set ''github.com'' ''s3cr3t'', Dump, Remove ''github.com'', Dump])
     = (\<lambda>i. counting (i + 40)) \<and>
   (\<exists>iv ct. parse_repr ref_platform
       (fst (fst (dump ref_platform
          (fst (calls ref_platform (init ref_platform ''correct horse'' counting)
             [Set ''github.com'' ''s3cr3t'', Dump, Remove ''github.com'', Dump]))
          (snd (calls ref_platform (init ref_platform ''correct horse'' counting)
             [Set ''github.com'' ''s3cr3t'', Dump, Remove ''github.com'', Dump])))))
     = Inr ([0, 1, 2, 3, 4, 5, 6, 7, 8, 9, 10, 11, 12, 13, 14, 15], iv, ct))"
proof -
  let ?cs = "[Set ''github.com'' ''s3cr3t'', Dump, Remove ''github.com'', Dump]"
  let ?st = "calls ref_platform (init ref_platform ''correct horse'' counting) ?cs"
  note w = salt_generated_once[OF ref_codecs_correct prod.collapse[symmetric]
      prod.collapse[symmetric], where password = "''correct horse''" and g = counting
        and cs = ?cs, unfolded counting_16 prod.collapse]
  from w have "data_salt (fst ?st) =
      encodeBuffer ref_platform [0, 1, 2, 3, 4, 5, 6, 7, 8, 9, 10, 11, 12, 13, 14, 15]"
    by simp
  moreover from w have "snd ?st = (\<lambda>i. counting (i + 40))"
    by (simp add: add.commute)
  moreover from w have "\<exists>iv ct. parse_repr ref_platform (fst (fst (dump ref_platform (fst ?st)
      (snd ?st)))) = Inr ([0, 1, 2, 3, 4, 5, 6, 7, 8, 9, 10, 11, 12, 13, 14, 15], iv, ct)"
    by blast
  ultimately show ?thesis by blast
qed

text \<open>
  Against C9 as stated: \<open>init\<close> with the empty password returns a keychain, and its
  \<open>dump\<close> opens again under the empty password.
\<close>

theorem empty_password_counterexample:
  "vault (fst (init ref_platform [] counting)) = [] \<and>
   \<not> isl (load ref_platform []
      (fst (fst (dump ref_platform (fst (init ref_platform [] counting))
         (snd (init ref_platform [] counting))))) JUndefined)"
  using init_working[OF ref_codecs_correct ref_aead_correct, of "[]" counting
      "snd (init ref_platform [] counting)"]
  by (auto simp: vault_init)

text \<open>
  C9, as the code has it. \<open>Keychain.init\<close> checks nothing: for every password, the empty
  one included, it returns a keychain with no entries whose \<open>dump\<close> opens again under that
  password. The handler of POST /init is what rejects a body whose password is absent or
  empty, with status 400 and without touching the active keychain or the generator; for
  any other password it makes the keychain of \<open>init\<close> the active one and answers 201 with
  the representation and checksum of that keychain's \<open>dump\<close>, which opens under the
  password.
\<close>

theorem init_accepts_every_password:
  assumes "codecs_correct pf" and "aead_correct pf"
  shows "vault (fst (init pf password g)) = [] \<and>
         (\<exists>kc'. load pf password (fst (fst (dump pf (fst (init pf password g)) g'))) JUndefined
            = Inr kc' \<and> map_of (vault kc') = Map.empty) \<and>
         post_init pf None st = ((400, None), st) \<and>
         post_init pf (Some []) st = ((400, None), st) \<and>
         (p \<noteq> [] \<longrightarrow>
            fst (fst (post_init pf (Some p) st)) = 201 \<and>
            fst (snd (post_init pf (Some p) st)) = Some (fst (init pf p (snd st))) \<and>
            post_init pf (Some p) st =
              ((201, Some (fst (dump pf (fst (init pf p (snd st))) (snd (init pf p (snd st)))))),
               (Some (fst (init pf p (snd st))),
                snd (dump pf (fst (init pf p (snd st))) (snd (init pf p (snd st)))))) \<and>
            (\<exists>kc'. load pf p (fst (the (snd (fst (post_init pf (Some p) st))))) JUndefined
               = Inr kc' \<and> map_of (vault kc') = Map.empty))"
  using init_working[OF assms] post_init_rejects post_init_creates post_init_answer
  by (simp add: vault_init)

theorem init_accepts_every_password_witness:
  "(\<exists>kc'. load ref_platform []
       (fst (fst (dump ref_platform (fst (init ref_platform [] counting)) counting))) JUndefined
       = Inr kc' \<and> map_of (vault kc') = Map.empty) \<and>
   post_init ref_platform (Some []) (None, counting) = ((400, None), (None, counting)) \<and>
   post_init ref_platform (Some ''correct horse'') (None, counting) =
     ((201, Some (fst (dump ref_platform (fst (init ref_platform ''correct horse'' counting))
                    (\<lambda>i. counting (i + 16))))),
      (Some (fst (init ref_platform ''correct horse'' counting)), \<lambda>i. counting (i + 28)))"
  using init_accepts_every_password[OF ref_codecs_correct ref_aead_correct,
      where password = "[]" and g = counting and g' = counting and st = "(None, counting)"
        and p = "''correct horse''"]
  by (simp add: init_rng dump_rng_advances add.assoc)

text \<open>
  C10. A falsy \<open>trustedDataCheck\<close> (\<open>undefined\<close>, \<open>null\<close>, the empty string) skips the
  integrity check: \<open>load\<close> does exactly what it does with no checksum, and does not fail
  with an IntegrityError.
\<close>

theorem load_falsy_checksum:
  "\<not> truthy t \<Longrightarrow>
   load pf password repr t = load pf password repr JUndefined \<and>
   load pf password repr t \<noteq> Inl IntegrityError"
proof -
  assume f: "\<not> truthy t"
  have u: "check_integrity pf repr t = Inr ()" "check_integrity pf repr JUndefined = Inr ()"
    using f by (simp_all add: check_integrity_falsy)
  have "load pf password repr t = load pf password repr JUndefined"
    by (simp add: load_unchecked u)
  moreover have "load pf password repr t \<noteq> Inl IntegrityError"
    unfolding load_unchecked[OF u(1)]
    by (auto split: sum.splits prod.splits dest: parse_repr_error open_vault_error)
  ultimately show ?thesis by simp
qed

theorem load_falsy_checksum_witness:
  "load ref_platform ''correct horse'' (fst (fst (dump ref_platform github_keychain counting)))
     (JStr []) =
   load ref_platform ''correct horse'' (fst (fst (dump ref_platform github_keychain counting)))
     JUndefined \<and>
   load ref_platform ''correct horse'' (fst (fst (dump ref_platform github_keychain counting)))
     (JStr []) \<noteq> Inl IntegrityError"
proof -
  have "\<not> truthy (JStr [])" by simp
  from load_falsy_checksum[OF this] show ?thesis .
qed

end
